theory Spec2Isabelle
  imports Main "HOL-Library.Word"
begin

section \<open>TEKCAP: the GPIB-serial screenshot tool of \<open>main.c\<close>\<close>

text \<open>
  The program is one C function, \<open>main\<close>, that talks to a serial port, a clock and an
  output file through the Win32 API. The embedding keeps the control flow of \<open>main\<close>
  and makes the operating system an explicit parameter: an \<open>env\<close> answers every API
  call (the k-th \<open>ReadFile\<close> on the port, the k-th \<open>GetTickCount\<close>, ...), and a
  \<open>world\<close> records everything the program has done so far. \<open>Sleep\<close> only lets real
  time pass; the clock readings of the environment stand for it.
\<close>

subsection \<open>Data\<close>

type_synonym bytes = "char list"

text \<open>\<open>'\r'\<close>, and the DOS device prefix \<open>\\.\\<close> that \<open>portname\<close> starts with.\<close>

definition CR :: char where
  "CR = CHR 0x0D"

definition BSL :: char where
  "BSL = CHR 0x5C"

definition device_prefix :: string where
  "device_prefix = [BSL, BSL, CHR ''.'', BSL]"

text \<open>\<open>#define MAX_TIMEOUTS 1\<close>; \<open>sizeof(strBuf)\<close>, \<open>sizeof(portname)\<close>, \<open>sizeof(filename)\<close>.\<close>

definition MAX_TIMEOUTS :: int where
  "MAX_TIMEOUTS = 1"

definition sizeof_strBuf :: nat where
  "sizeof_strBuf = 1024"

definition sizeof_portname :: nat where
  "sizeof_portname = 256"

definition sizeof_filename :: nat where
  "sizeof_filename = 256"

text \<open>The globals \<open>portname\<close>, \<open>baud\<close> and \<open>address\<close> (\<open>long\<close> and \<open>int\<close> are both
  32 bits wide on the Windows targets the program compiles for; \<open>strtol\<close> below
  saturates into that range, so the values are kept as \<open>int\<close>).\<close>

record config =
  portname :: string
  baud :: int
  address :: int

definition initial_config :: config where
  "initial_config = \<lparr> portname = device_prefix @ ''COM14'', baud = 230400, address = 1 \<rparr>"

text \<open>The failure branches of \<open>main\<close>, one constructor per \<open>return n\<close> or
  \<open>err = n; goto mainOut\<close> in the source, in source order.\<close>

datatype failure =
    FilenameRequired        \<comment> \<open>line 93\<close>
  | AddressOutOfRange       \<comment> \<open>line 97\<close>
  | BaudOutOfRange          \<comment> \<open>line 101\<close>
  | PortOpenFailed          \<comment> \<open>line 117\<close>
  | PortConfigFailed        \<comment> \<open>line 161\<close>
  | ClearInputFailed        \<comment> \<open>line 171\<close>
  | TestingPortFailed       \<comment> \<open>line 179\<close>
  | OutputOpenFailed        \<comment> \<open>line 200\<close>
  | ArmWriteFailed          \<comment> \<open>line 206\<close>
  | FirstReadWriteFailed    \<comment> \<open>line 212\<close>
  | RetryWriteFailed        \<comment> \<open>line 224\<close>
  | DataReadFailed          \<comment> \<open>line 233\<close>
  | OutputWriteFailed       \<comment> \<open>line 239\<close>

text \<open>The value each branch returns or stores in \<open>err\<close>.\<close>

fun err_code :: "failure \<Rightarrow> int" where
  "err_code FilenameRequired = 1"
| "err_code AddressOutOfRange = 2"
| "err_code BaudOutOfRange = 3"
| "err_code PortOpenFailed = 4"
| "err_code PortConfigFailed = 5"
| "err_code ClearInputFailed = 12"
| "err_code TestingPortFailed = 6"
| "err_code OutputOpenFailed = 7"
| "err_code ArmWriteFailed = 8"
| "err_code FirstReadWriteFailed = 8"
| "err_code RetryWriteFailed = 11"
| "err_code DataReadFailed = 9"
| "err_code OutputWriteFailed = 10"

text \<open>What C leaves undefined, or hands to the CRT's invalid-parameter handler, is a
  value of the model too: the run stops there with a \<open>Fault\<close>.\<close>

datatype fault =
    NullArgument        \<comment> \<open>\<open>argv[argc]\<close> (or beyond) passed to \<open>strcmp\<close>, \<open>strtol\<close>, \<open>strncpy_s\<close>\<close>
  | PortnameOverrun     \<comment> \<open>\<open>strncpy_s\<close> past the end of \<open>portname\<close>\<close>
  | InvalidParameter    \<comment> \<open>\<open>strcpy_s\<close> or \<open>strcat_s\<close> with a destination too small\<close>
  | StrBufOverrun       \<comment> \<open>\<open>strBuf[numBytes] = 0\<close> with \<open>numBytes = sizeof(strBuf)\<close>\<close>

datatype outcome = Exit int | Fault fault

datatype stop = Error failure | Crash fault

subsection \<open>The environment and the world\<close>

datatype read_result = ReadFailed | ReadOk bytes

record env =
  open_port :: "string \<Rightarrow> bool"
    \<comment> \<open>\<open>CreateFile\<close> on the port name gives a valid handle\<close>
  set_comm_state :: "int \<Rightarrow> bool"
    \<comment> \<open>\<open>SetCommState\<close> with this baud rate succeeds\<close>
  set_comm_timeouts :: bool
  setup_comm :: bool
  port_write :: "nat \<Rightarrow> bool"
    \<comment> \<open>the k-th \<open>WriteFile\<close> on \<open>hComm\<close> succeeds\<close>
  port_read :: "nat \<Rightarrow> read_result"
    \<comment> \<open>the k-th \<open>ReadFile\<close> on \<open>hComm\<close>: failure, or the bytes that arrived
        before the read timeout (none is a valid answer)\<close>
  tick_count :: "nat \<Rightarrow> 32 word"
    \<comment> \<open>the k-th \<open>GetTickCount\<close>\<close>
  has_extension :: "string \<Rightarrow> bool"
    \<comment> \<open>\<open>*PathFindExtensionA(filename) != 0\<close>\<close>
  open_output :: "string \<Rightarrow> bool"
    \<comment> \<open>\<open>CreateFile\<close> on the output file name gives a valid handle\<close>
  file_write :: "nat \<Rightarrow> bool"
    \<comment> \<open>the k-th \<open>WriteFile\<close> on \<open>hOutput\<close> succeeds\<close>

record world =
  sent :: "string list"
    \<comment> \<open>the buffers handed to \<open>WriteFile\<close> on \<open>hComm\<close>, in order\<close>
  reads_done :: nat
    \<comment> \<open>number of \<open>ReadFile\<close> calls on \<open>hComm\<close>\<close>
  ticks_read :: nat
    \<comment> \<open>number of \<open>GetTickCount\<close> calls\<close>
  existing :: "bytes option"
    \<comment> \<open>the output file as it was on disk before the run, if there was one\<close>
  output_opened :: bool
    \<comment> \<open>\<open>CreateFile\<close> on the output file has succeeded\<close>
  written :: bytes
    \<comment> \<open>the bytes written through \<open>hOutput\<close>, in order\<close>
  writes_done :: nat
    \<comment> \<open>number of \<open>WriteFile\<close> calls on \<open>hOutput\<close>\<close>
  markers :: string
    \<comment> \<open>the \<open>:\<close> and \<open>.\<close> printed by the receive loop\<close>
  comm_open :: bool
  output_open :: bool

definition initial_world :: "bytes option \<Rightarrow> world" where
  "initial_world f = \<lparr> sent = [], reads_done = 0, ticks_read = 0, existing = f,
     output_opened = False, written = [], writes_done = 0, markers = [],
     comm_open = False, output_open = False \<rparr>"

text \<open>The output file is opened with \<open>OPEN_ALWAYS\<close> and written from offset 0 without
  a seek: what is on disk is what was written, followed by whatever an older, longer
  file had beyond that.\<close>

definition file_content :: "world \<Rightarrow> bytes option" where
  "file_content w =
     (if output_opened w
      then Some (written w @ drop (length (written w)) (case existing w of None \<Rightarrow> [] | Some old \<Rightarrow> old))
      else existing w)"

subsection \<open>The API calls\<close>

definition WriteFile_hComm :: "env \<Rightarrow> string \<Rightarrow> world \<Rightarrow> bool \<times> world" where
  "WriteFile_hComm e buf w = (port_write e (length (sent w)), w\<lparr>sent := sent w @ [buf]\<rparr>)"

definition ReadFile_hComm :: "env \<Rightarrow> world \<Rightarrow> read_result \<times> world" where
  "ReadFile_hComm e w = (port_read e (reads_done w), w\<lparr>reads_done := reads_done w + 1\<rparr>)"

definition GetTickCount :: "env \<Rightarrow> world \<Rightarrow> 32 word \<times> world" where
  "GetTickCount e w = (tick_count e (ticks_read w), w\<lparr>ticks_read := ticks_read w + 1\<rparr>)"

text \<open>A successful \<open>WriteFile\<close> on the disk file transfers the whole buffer and reports
  its length in \<open>numBytes\<close>; a failed one transfers nothing.\<close>

definition WriteFile_hOutput :: "env \<Rightarrow> bytes \<Rightarrow> world \<Rightarrow> bool \<times> world" where
  "WriteFile_hOutput e buf w =
     (if file_write e (writes_done w)
      then (True, w\<lparr>written := written w @ buf, writes_done := writes_done w + 1\<rparr>)
      else (False, w\<lparr>writes_done := writes_done w + 1\<rparr>))"

subsection \<open>Command line (lines 54 to 106)\<close>

text \<open>\<open>strtol(s, NULL, 10)\<close>: white space, an optional sign, decimal digits; the value
  saturates at \<open>LONG_MIN\<close> and \<open>LONG_MAX\<close>; no digits give 0.\<close>

definition isspace :: "char \<Rightarrow> bool" where
  "isspace c = (c \<in> set [CHR '' '', CHR 0x09, CHR 0x0A, CHR 0x0B, CHR 0x0C, CHR 0x0D])"

definition isdigit :: "char \<Rightarrow> bool" where
  "isdigit c = (c \<in> set ''0123456789'')"

definition digit_value :: "char \<Rightarrow> int" where
  "digit_value c = int (of_char c) - 48"

definition LONG_MAX :: int where
  "LONG_MAX = 2147483647"

definition LONG_MIN :: int where
  "LONG_MIN = - 2147483648"

definition strtol :: "string \<Rightarrow> int" where
  "strtol s =
     (let s1 = dropWhile isspace s;
          neg = (case s1 of [] \<Rightarrow> False | c # _ \<Rightarrow> c = CHR ''-'');
          s2 = (case s1 of [] \<Rightarrow> [] | c # r \<Rightarrow> if c = CHR ''-'' \<or> c = CHR ''+'' then r else s1);
          v = foldl (\<lambda>acc c. 10 * acc + digit_value c) 0 (takeWhile isdigit s2)
      in if neg then max LONG_MIN (- v) else min LONG_MAX v)"

text \<open>\<open>argv[i]\<close>: a string for \<open>i < argc\<close>; \<open>argv[argc]\<close> is the null pointer and
  anything beyond is outside the array.\<close>

definition arg :: "string list \<Rightarrow> nat \<Rightarrow> string option" where
  "arg argv i = (if i < length argv then Some (argv ! i) else None)"

text \<open>The three \<open>if\<close>s of the loop body. They are not chained with \<open>else\<close>: the value
  consumed by one option is compared with the next option's name.\<close>

definition opt_p :: "string list \<Rightarrow> nat \<times> config \<Rightarrow> fault + nat \<times> config" where
  "opt_p argv ic =
     (case ic of (i, c) \<Rightarrow>
      (case arg argv i of None \<Rightarrow> Inl NullArgument
       | Some a \<Rightarrow>
          if a = ''-p'' then
            (case arg argv (i + 1) of None \<Rightarrow> Inl NullArgument
             | Some v \<Rightarrow>
                if sizeof_portname - 1 \<le> length v then Inl InvalidParameter
                else if sizeof_portname < 4 + length v + 1 then Inl PortnameOverrun
                else Inr (i + 1, c\<lparr>portname := device_prefix @ v\<rparr>))
          else Inr (i, c)))"

definition opt_b :: "string list \<Rightarrow> nat \<times> config \<Rightarrow> fault + nat \<times> config" where
  "opt_b argv ic =
     (case ic of (i, c) \<Rightarrow>
      (case arg argv i of None \<Rightarrow> Inl NullArgument
       | Some a \<Rightarrow>
          if a = ''-b'' then
            (case arg argv (i + 1) of None \<Rightarrow> Inl NullArgument
             | Some v \<Rightarrow> Inr (i + 1, c\<lparr>baud := strtol v\<rparr>))
          else Inr (i, c)))"

definition opt_a :: "string list \<Rightarrow> nat \<times> config \<Rightarrow> fault + nat \<times> config" where
  "opt_a argv ic =
     (case ic of (i, c) \<Rightarrow>
      (case arg argv i of None \<Rightarrow> Inl NullArgument
       | Some a \<Rightarrow>
          if a = ''-a'' then
            (case arg argv (i + 1) of None \<Rightarrow> Inl NullArgument
             | Some v \<Rightarrow> Inr (i + 1, c\<lparr>address := strtol v\<rparr>))
          else Inr (i, c)))"

definition parse_body :: "string list \<Rightarrow> nat \<times> config \<Rightarrow> fault + nat \<times> config" where
  "parse_body argv ic =
     (case opt_p argv ic of Inl f \<Rightarrow> Inl f
      | Inr ic1 \<Rightarrow>
         (case opt_b argv ic1 of Inl f \<Rightarrow> Inl f
          | Inr ic2 \<Rightarrow> opt_a argv ic2))"

text \<open>\<open>for (i = 1; i < argc - 1; i++)\<close>, entered with \<open>argc > 1\<close>.\<close>

function parse_args :: "string list \<Rightarrow> nat \<Rightarrow> config \<Rightarrow> fault + nat \<times> config" where
  "parse_args argv i c =
     (if i + 1 < length argv
      then (case parse_body argv (i, c) of Inl f \<Rightarrow> Inl f
            | Inr (j, c') \<Rightarrow> parse_args argv (j + 1) c')
      else Inr (i, c))"
  by pat_completeness auto
termination
  by (relation "measure (\<lambda>(argv, i, c). length argv - i)")
     (auto simp: parse_body_def opt_p_def opt_b_def opt_a_def
           split: sum.splits option.splits if_splits)

declare parse_args.simps [simp del]

text \<open>The sanity checks, in source order.\<close>

definition sanity_checks :: "nat \<Rightarrow> nat \<Rightarrow> config \<Rightarrow> failure option" where
  "sanity_checks argc i c =
     (if argc \<le> i then Some FilenameRequired
      else if 30 < address c \<or> address c < 0 then Some AddressOutOfRange
      else if baud c < 0 \<or> 6000000 < baud c then Some BaudOutOfRange
      else None)"

text \<open>Everything before the port is opened: the help text for \<open>argc \<le> 1\<close>, the
  options, the checks, and \<open>strcpy_s(filename, sizeof(filename) - 1, argv[i])\<close>.\<close>

definition arguments :: "string list \<Rightarrow> outcome + config \<times> string" where
  "arguments argv =
     (if length argv \<le> 1 then Inl (Exit 0)
      else
        (case parse_args argv 1 initial_config of Inl f \<Rightarrow> Inl (Fault f)
         | Inr (i, c) \<Rightarrow>
            (case sanity_checks (length argv) i c of Some f \<Rightarrow> Inl (Exit (err_code f))
             | None \<Rightarrow>
                if sizeof_filename - 1 \<le> length (argv ! i) then Inl (Fault InvalidParameter)
                else Inr (c, argv ! i))))"

subsection \<open>Opening the port and the adapter handshake (lines 108 to 184)\<close>

definition cmd_probe :: string where
  "cmd_probe = [CR, CR] @ ''+read'' @ [CR]"

definition cmd_ver :: string where
  "cmd_ver = ''+ver'' @ [CR]"

definition cmd_read :: string where
  "cmd_read = ''+read'' @ [CR]"

definition cmd_terminator :: string where
  "cmd_terminator = [CR]"

text \<open>\<open>CreateFile\<close>, then \<open>SetCommState\<close>, \<open>SetCommTimeouts\<close> and \<open>SetupComm\<close> chained
  with \<open>&&\<close>, then the first write, whose result is kept in \<open>err\<close> and only looked
  at after the input buffer has been cleared.\<close>

definition connect :: "env \<Rightarrow> config \<Rightarrow> world \<Rightarrow> stop \<times> world + bool \<times> world" where
  "connect e c w =
     (if \<not> open_port e (portname c) then Inl (Error PortOpenFailed, w)
      else
        (let w1 = w\<lparr>comm_open := True\<rparr> in
         if \<not> (set_comm_state e (baud c) \<and> set_comm_timeouts e \<and> setup_comm e)
         then Inl (Error PortConfigFailed, w1)
         else Inr (WriteFile_hComm e cmd_probe w1)))"

text \<open>\<open>do { Sleep(10); if (!ReadFile(...)) { err = 12; goto mainOut; } } while (numBytes > 0);\<close>
  The loop runs for as long as the port delivers bytes; \<open>None\<close> is the run that never
  leaves it.\<close>

partial_function (option) clear_input :: "env \<Rightarrow> world \<Rightarrow> (stop \<times> world + world) option" where
  "clear_input e w =
     (case ReadFile_hComm e w of
        (ReadFailed, w1) \<Rightarrow> Some (Inl (Error ClearInputFailed, w1))
      | (ReadOk buf, w1) \<Rightarrow> if 0 < length buf then clear_input e w1 else Some (Inr w1))"

text \<open>\<open>err = err && WriteFile(+ver); err = err && ReadFile(...); if (!err) { err = 6; ... }\<close>
  and then \<open>strBuf[numBytes] = 0\<close>, which is inside the array only for
  \<open>numBytes < sizeof(strBuf)\<close>. \<open>ReadFile\<close> is asked for \<open>sizeof(strBuf)\<close> bytes.\<close>

definition identify :: "env \<Rightarrow> bool \<Rightarrow> world \<Rightarrow> stop \<times> world + world" where
  "identify e err w =
     (if \<not> err then Inl (Error TestingPortFailed, w)
      else
        (case WriteFile_hComm e cmd_ver w of
           (ok, w1) \<Rightarrow>
             if \<not> ok then Inl (Error TestingPortFailed, w1)
             else
               (case ReadFile_hComm e w1 of
                  (ReadFailed, w2) \<Rightarrow> Inl (Error TestingPortFailed, w2)
                | (ReadOk buf, w2) \<Rightarrow>
                    if length buf < sizeof_strBuf then Inr w2
                    else Inl (Crash StrBufOverrun, w2))))"

subsection \<open>The output file and the hardcopy command (lines 186 to 215)\<close>

text \<open>\<open>strcat_s(filename, sizeof(filename) - 1, ".bmp")\<close> when the name has no
  extension, then \<open>CreateFile\<close> with \<open>OPEN_ALWAYS\<close>.\<close>

definition open_output_file :: "env \<Rightarrow> string \<Rightarrow> world \<Rightarrow> stop \<times> world + world" where
  "open_output_file e fname w =
     (if \<not> has_extension e fname \<and> sizeof_filename - 1 < length fname + length ''.bmp'' + 1
      then Inl (Crash InvalidParameter, w)
      else
        (let fname' = (if has_extension e fname then fname else fname @ ''.bmp'') in
         if \<not> open_output e fname' then Inl (Error OutputOpenFailed, w)
         else Inr (w\<lparr>output_opened := True, output_open := True\<rparr>)))"

text \<open>\<open>%i\<close> of \<open>sprintf_s\<close>.\<close>

fun decimal :: "nat \<Rightarrow> string" where
  "decimal n =
     (if n < 10 then [char_of (48 + n)]
      else decimal (n div 10) @ [char_of (48 + n mod 10)])"

declare decimal.simps [simp del]

definition format_i :: "int \<Rightarrow> string" where
  "format_i n = (if n < 0 then CHR ''-'' # decimal (nat (- n)) else decimal (nat n))"

definition cmd_arm :: "int \<Rightarrow> string" where
  "cmd_arm a = ''++addr '' @ format_i a @ [CR] @ ''++mode 1'' @ [CR] @ ''HARDC STAR'' @ [CR]"

definition arm :: "env \<Rightarrow> config \<Rightarrow> world \<Rightarrow> stop \<times> world + world" where
  "arm e c w =
     (case WriteFile_hComm e (cmd_arm (address c)) w of
        (ok, w1) \<Rightarrow>
          if \<not> ok then Inl (Error ArmWriteFailed, w1)
          else
            (case WriteFile_hComm e cmd_read w1 of
               (ok2, w2) \<Rightarrow>
                 if \<not> ok2 then Inl (Error FirstReadWriteFailed, w2) else Inr w2))"

subsection \<open>The receive loop (lines 217 to 256)\<close>

record capture =
  lastTicks :: "32 word"
  bytesTilDot :: int
  timeout :: int
  wld :: world

text \<open>\<open>GetTickCount() - lastTicks > 1000\<close> is computed in \<open>DWORD\<close>: the difference
  wraps around and the comparison is unsigned.\<close>

definition kick :: "env \<Rightarrow> capture \<Rightarrow> stop \<times> world + capture" where
  "kick e s =
     (case GetTickCount e (wld s) of
        (now, w1) \<Rightarrow>
          if 1000 < now - lastTicks s then
            (case WriteFile_hComm e cmd_read w1 of
               (ok, w2) \<Rightarrow>
                 if \<not> ok then Inl (Error RetryWriteFailed, w2)
                 else
                   (case GetTickCount e w2 of
                      (now2, w3) \<Rightarrow>
                        Inr (s\<lparr>timeout := timeout s + 1, lastTicks := now2,
                                wld := w3\<lparr>markers := markers w3 @ '':''\<rparr>\<rparr>)))
          else Inr (s\<lparr>wld := w1\<rparr>))"

text \<open>\<open>bytesTilDot\<close> is never negative, so the comparison with \<open>sizeof(strBuf)\<close>,
  which C makes in \<open>size_t\<close>, is the comparison of the integers.\<close>

definition receive :: "env \<Rightarrow> capture \<Rightarrow> stop \<times> world + capture" where
  "receive e s =
     (case ReadFile_hComm e (wld s) of
        (ReadFailed, w1) \<Rightarrow> Inl (Error DataReadFailed, w1)
      | (ReadOk buf, w1) \<Rightarrow>
          if 0 < length buf then
            (case WriteFile_hOutput e buf w1 of
               (ok, w2) \<Rightarrow>
                 if \<not> ok then Inl (Error OutputWriteFailed, w2)
                 else
                   (let n = bytesTilDot s + int (length buf);
                        dot = int sizeof_strBuf < n;
                        w3 = (if dot then w2\<lparr>markers := markers w2 @ ''.''\<rparr> else w2)
                    in case GetTickCount e w3 of
                         (now, w4) \<Rightarrow>
                           Inr (s\<lparr>timeout := 0,
                                   bytesTilDot := (if dot then n - int sizeof_strBuf else n),
                                   lastTicks := now, wld := w4\<rparr>)))
          else Inr (s\<lparr>wld := w1\<rparr>))"

text \<open>One pass through the body of the \<open>do ... while\<close>.\<close>

definition iteration :: "env \<Rightarrow> capture \<Rightarrow> stop \<times> world + capture" where
  "iteration e s = (case kick e s of Inl x \<Rightarrow> Inl x | Inr s1 \<Rightarrow> receive e s1)"

partial_function (option) streaming :: "env \<Rightarrow> capture \<Rightarrow> (stop \<times> world + capture) option" where
  "streaming e s =
     (case iteration e s of
        Inl x \<Rightarrow> Some (Inl x)
      | Inr s1 \<Rightarrow> if timeout s1 < MAX_TIMEOUTS then streaming e s1 else Some (Inr s1))"

text \<open>The loop with its initialisation, and the terminator that follows it, whose
  result is not looked at.\<close>

definition start_capture :: "env \<Rightarrow> world \<Rightarrow> capture" where
  "start_capture e w =
     (case GetTickCount e w of
        (now, w1) \<Rightarrow> \<lparr> lastTicks = now, bytesTilDot = 0, timeout = 0, wld = w1 \<rparr>)"

definition capture_image :: "env \<Rightarrow> world \<Rightarrow> (stop \<times> world + world) option" where
  "capture_image e w =
     (case streaming e (start_capture e w) of
        None \<Rightarrow> None
      | Some (Inl x) \<Rightarrow> Some (Inl x)
      | Some (Inr s) \<Rightarrow> Some (Inr (snd (WriteFile_hComm e cmd_terminator (wld s)))))"

subsection \<open>\<open>main\<close>\<close>

text \<open>\<open>mainOut\<close>: both handles are closed; the exit status is \<open>err\<close>.\<close>

definition mainOut :: "world \<Rightarrow> world" where
  "mainOut w = w\<lparr>comm_open := False, output_open := False\<rparr>"

fun finish :: "stop \<times> world + world \<Rightarrow> outcome \<times> world" where
  "finish (Inl (Error f, w)) = (Exit (err_code f), mainOut w)"
| "finish (Inl (Crash c, w)) = (Fault c, w)"
| "finish (Inr w) = (Exit 0, mainOut w)"

text \<open>Lines 108 to 215: from opening the port to the first \<open>+read\<close>.\<close>

definition handshake :: "env \<Rightarrow> config \<Rightarrow> string \<Rightarrow> world \<Rightarrow> (stop \<times> world + world) option" where
  "handshake e c fname w =
     (case connect e c w of
        Inl x \<Rightarrow> Some (Inl x)
      | Inr (err, w1) \<Rightarrow>
          (case clear_input e w1 of
             None \<Rightarrow> None
           | Some (Inl x) \<Rightarrow> Some (Inl x)
           | Some (Inr w2) \<Rightarrow>
               (case identify e err w2 of
                  Inl x \<Rightarrow> Some (Inl x)
                | Inr w3 \<Rightarrow>
                    (case open_output_file e fname w3 of
                       Inl x \<Rightarrow> Some (Inl x)
                     | Inr w4 \<Rightarrow> Some (arm e c w4)))))"

definition session :: "env \<Rightarrow> config \<Rightarrow> string \<Rightarrow> world \<Rightarrow> (stop \<times> world + world) option" where
  "session e c fname w =
     (case handshake e c fname w of
        None \<Rightarrow> None
      | Some (Inl x) \<Rightarrow> Some (Inl x)
      | Some (Inr w1) \<Rightarrow> capture_image e w1)"

definition main :: "env \<Rightarrow> string list \<Rightarrow> world \<Rightarrow> (outcome \<times> world) option" where
  "main e argv w =
     (case arguments argv of
        Inl r \<Rightarrow> Some (r, w)
      | Inr (c, fname) \<Rightarrow> map_option finish (session e c fname w))"

subsection \<open>Vocabulary of the properties\<close>

text \<open>What a \<open>ReadFile\<close> on the port delivered, and the sequence of deliveries of the
  calls number \<open>i\<close> up to, and not including, number \<open>j\<close>.\<close>

definition payload :: "read_result \<Rightarrow> bytes" where
  "payload r = (case r of ReadFailed \<Rightarrow> [] | ReadOk buf \<Rightarrow> buf)"

definition received :: "env \<Rightarrow> nat \<Rightarrow> nat \<Rightarrow> bytes list" where
  "received e i j = map (\<lambda>k. payload (port_read e k)) [i ..< j]"

text \<open>The number of progress markers (\<open>.\<close>) among the printed markers.\<close>

definition progress_markers :: "string \<Rightarrow> nat" where
  "progress_markers m = length (filter (\<lambda>c. c = CHR ''.'') m)"



subsection \<open>A simulated bench\<close>

text \<open>An environment in which every call succeeds: the port answers the reads with the
  given script and stays silent after it, and the clock advances by 600 ms from one
  reading to the next.\<close>

definition scripted :: "'a \<Rightarrow> 'a list \<Rightarrow> nat \<Rightarrow> 'a" where
  "scripted d xs k = (if k < length xs then xs ! k else d)"

definition bench :: "read_result list \<Rightarrow> env" where
  "bench script =
     \<lparr> open_port = (\<lambda>_. True), set_comm_state = (\<lambda>_. True), set_comm_timeouts = True,
       setup_comm = True, port_write = (\<lambda>_. True),
       port_read = scripted (ReadOk []) script,
       tick_count = (\<lambda>k. 600 * of_nat k),
       has_extension = (\<lambda>name. CHR ''.'' \<in> set name),
       open_output = (\<lambda>_. True), file_write = (\<lambda>_. True) \<rparr>"

section \<open>Properties\<close>

subsection \<open>Unfolding the model\<close>

lemmas api_defs = WriteFile_hComm_def ReadFile_hComm_def GetTickCount_def WriteFile_hOutput_def

lemmas argument_defs = arguments_def parse_args.simps parse_body_def opt_p_def opt_b_def
  opt_a_def arg_def sanity_checks_def initial_config_def strtol_def isspace_def isdigit_def
  digit_value_def LONG_MAX_def LONG_MIN_def sizeof_filename_def sizeof_portname_def
  device_prefix_def

lemmas session_defs = session_def handshake_def connect_def identify_def open_output_file_def
  arm_def capture_image_def start_capture_def iteration_def kick_def receive_def api_defs
  clear_input.simps streaming.simps MAX_TIMEOUTS_def sizeof_strBuf_def sizeof_filename_def
  mainOut_def

lemmas bench_defs = bench_def scripted_def initial_world_def

subsection \<open>One pass through the loop body\<close>

lemma kick_Inr:
  assumes "kick e s = Inr s1"
  shows "reads_done (wld s1) = reads_done (wld s)" "written (wld s1) = written (wld s)"
    "existing (wld s1) = existing (wld s)" "output_opened (wld s1) = output_opened (wld s)"
    "writes_done (wld s1) = writes_done (wld s)" "bytesTilDot s1 = bytesTilDot s"
  using assms
  by (auto simp: kick_def api_defs split: if_splits)

lemma receive_Inr:
  assumes "receive e s1 = Inr s2"
  shows "reads_done (wld s2) = reads_done (wld s1) + 1"
    "written (wld s2) = written (wld s1) @ payload (port_read e (reads_done (wld s1)))"
    "port_read e (reads_done (wld s1)) \<noteq> ReadFailed"
    "existing (wld s2) = existing (wld s1)" "output_opened (wld s2) = output_opened (wld s1)"
    "sent (wld s2) = sent (wld s1)"
  using assms
  by (auto simp: receive_def api_defs payload_def Let_def split: if_splits read_result.splits)

lemma iteration_Inr:
  assumes "iteration e s = Inr s'"
  shows "reads_done (wld s') = reads_done (wld s) + 1"
    "written (wld s') = written (wld s) @ payload (port_read e (reads_done (wld s)))"
    "port_read e (reads_done (wld s)) \<noteq> ReadFailed"
    "existing (wld s') = existing (wld s)" "output_opened (wld s') = output_opened (wld s)"
proof -
  from assms obtain s1 where k: "kick e s = Inr s1" and r: "receive e s1 = Inr s'"
    by (auto simp: iteration_def split: sum.splits)
  show "reads_done (wld s') = reads_done (wld s) + 1"
    using kick_Inr(1)[OF k] receive_Inr(1)[OF r] by simp
  show "written (wld s') = written (wld s) @ payload (port_read e (reads_done (wld s)))"
    using kick_Inr(1,2)[OF k] receive_Inr(2)[OF r] by simp
  show "port_read e (reads_done (wld s)) \<noteq> ReadFailed"
    using kick_Inr(1)[OF k] receive_Inr(3)[OF r] by simp
  show "existing (wld s') = existing (wld s)"
    using kick_Inr(3)[OF k] receive_Inr(4)[OF r] by simp
  show "output_opened (wld s') = output_opened (wld s)"
    using kick_Inr(4)[OF k] receive_Inr(5)[OF r] by simp
qed


lemma iteration_silent_wait:
  assumes "port_read e (reads_done (wld s)) = ReadOk []"
    and "\<not> 1000 < tick_count e (ticks_read (wld s)) - lastTicks s"
  shows "iteration e s = Inr (s\<lparr>wld := (wld s)\<lparr>ticks_read := ticks_read (wld s) + 1,
                                              reads_done := reads_done (wld s) + 1\<rparr>\<rparr>)"
  using assms
  by (simp add: iteration_def kick_def receive_def api_defs)

lemma iteration_silent_kick:
  assumes "port_read e (reads_done (wld s)) = ReadOk []"
    and "1000 < tick_count e (ticks_read (wld s)) - lastTicks s"
    and "port_write e (length (sent (wld s)))"
  shows "iteration e s = Inr (s\<lparr>timeout := timeout s + 1,
            lastTicks := tick_count e (ticks_read (wld s) + 1),
            wld := (wld s)\<lparr>ticks_read := ticks_read (wld s) + 2,
                           sent := sent (wld s) @ [cmd_read],
                           markers := markers (wld s) @ '':'',
                           reads_done := reads_done (wld s) + 1\<rparr>\<rparr>)"
  using assms
  by (simp add: iteration_def kick_def receive_def api_defs)

lemma iteration_data:
  assumes "port_read e (reads_done (wld s)) = ReadOk buf" and "buf \<noteq> []"
    and "\<forall>k. port_write e k" and "\<forall>k. file_write e k"
  shows "\<exists>s'. iteration e s = Inr s' \<and> timeout s' = 0
     \<and> bytesTilDot s' = (if 1024 < bytesTilDot s + int (length buf)
                          then bytesTilDot s + int (length buf) - 1024
                          else bytesTilDot s + int (length buf))
     \<and> progress_markers (markers (wld s')) = progress_markers (markers (wld s))
          + (if 1024 < bytesTilDot s + int (length buf) then 1 else 0)
     \<and> written (wld s') = written (wld s) @ buf
     \<and> reads_done (wld s') = reads_done (wld s) + 1
     \<and> lastTicks s' = tick_count e (ticks_read (wld s') - 1) \<and> 0 < ticks_read (wld s')
     \<and> existing (wld s') = existing (wld s) \<and> output_opened (wld s') = output_opened (wld s)"
  using assms
  by (cases "1000 < tick_count e (ticks_read (wld s)) - lastTicks s")
     (simp_all add: iteration_def kick_def receive_def api_defs Let_def sizeof_strBuf_def
        progress_markers_def)

subsection \<open>Induction along the runs of the loops that return\<close>

text \<open>
  The loops are least fixed points on \<open>option\<close>; a run that returns has made finitely
  many passes, and these rules follow them.
\<close>

lemma streaming_induct [consumes 1, case_names failed last continue]:
  assumes run: "streaming e s = Some y"
    and failed: "\<And>s x. iteration e s = Inl x \<Longrightarrow> y = Inl x \<Longrightarrow> P s"
    and last: "\<And>s s'. iteration e s = Inr s' \<Longrightarrow> \<not> timeout s' < MAX_TIMEOUTS \<Longrightarrow> y = Inr s' \<Longrightarrow> P s"
    and continue: "\<And>s s1. iteration e s = Inr s1 \<Longrightarrow> timeout s1 < MAX_TIMEOUTS \<Longrightarrow> P s1 \<Longrightarrow> P s"
  shows "P s"
proof -
  have "e0 = e \<longrightarrow> y0 = y \<longrightarrow> P s0" if "streaming e0 s0 = Some y0" for e0 s0 y0
  proof (rule streaming.raw_induct[where P = "\<lambda>e0 s0 y0. e0 = e \<longrightarrow> y0 = y \<longrightarrow> P s0", OF _ that])
    fix f e1 s1 y1
    assume ih: "\<And>a b z. f a b = Some z \<Longrightarrow> a = e \<longrightarrow> z = y \<longrightarrow> P b"
      and body: "(case iteration e1 s1 of Inl x \<Rightarrow> Some (Inl x)
                  | Inr s2 \<Rightarrow> if timeout s2 < MAX_TIMEOUTS then f e1 s2 else Some (Inr s2)) = Some y1"
    show "e1 = e \<longrightarrow> y1 = y \<longrightarrow> P s1"
    proof (intro impI)
      assume e1: "e1 = e" and y1: "y1 = y"
      show "P s1"
      proof (cases "iteration e1 s1")
        case (Inl x)
        with body y1 have "y = Inl x" by simp
        with Inl e1 show ?thesis using failed by simp
      next
        case (Inr s2)
        show ?thesis
        proof (cases "timeout s2 < MAX_TIMEOUTS")
          case True
          with body Inr have "f e1 s2 = Some y1" by simp
          from ih[OF this] e1 y1 have "P s2" by simp
          with Inr True e1 show ?thesis using continue by simp
        next
          case False
          with body Inr y1 have "y = Inr s2" by simp
          with Inr False e1 show ?thesis using last by simp
        qed
      qed
    qed
  qed
  from this[OF run] show ?thesis by simp
qed

lemma clear_input_induct [consumes 1, case_names failed drained continue]:
  assumes run: "clear_input e w = Some y"
    and failed: "\<And>w. port_read e (reads_done w) = ReadFailed \<Longrightarrow>
                   y = Inl (Error ClearInputFailed, w\<lparr>reads_done := reads_done w + 1\<rparr>) \<Longrightarrow> P w"
    and drained: "\<And>w. port_read e (reads_done w) = ReadOk [] \<Longrightarrow>
                   y = Inr (w\<lparr>reads_done := reads_done w + 1\<rparr>) \<Longrightarrow> P w"
    and continue: "\<And>w buf. port_read e (reads_done w) = ReadOk buf \<Longrightarrow> buf \<noteq> [] \<Longrightarrow>
                   P (w\<lparr>reads_done := reads_done w + 1\<rparr>) \<Longrightarrow> P w"
  shows "P w"
proof -
  have "e0 = e \<longrightarrow> y0 = y \<longrightarrow> P w0" if "clear_input e0 w0 = Some y0" for e0 w0 y0
  proof (rule clear_input.raw_induct[where P = "\<lambda>e0 w0 y0. e0 = e \<longrightarrow> y0 = y \<longrightarrow> P w0", OF _ that])
    fix f e1 w1 y1
    assume ih: "\<And>a b z. f a b = Some z \<Longrightarrow> a = e \<longrightarrow> z = y \<longrightarrow> P b"
      and body: "(case ReadFile_hComm e1 w1 of
                    (ReadFailed, w2) \<Rightarrow> Some (Inl (Error ClearInputFailed, w2))
                  | (ReadOk buf, w2) \<Rightarrow> if 0 < length buf then f e1 w2 else Some (Inr w2)) = Some y1"
    show "e1 = e \<longrightarrow> y1 = y \<longrightarrow> P w1"
    proof (intro impI)
      assume e1: "e1 = e" and y1: "y1 = y"
      show "P w1"
      proof (cases "port_read e (reads_done w1)")
        case ReadFailed
        with body e1 y1 have "y = Inl (Error ClearInputFailed, w1\<lparr>reads_done := reads_done w1 + 1\<rparr>)"
          by (simp add: ReadFile_hComm_def)
        with ReadFailed show ?thesis using failed by simp
      next
        case (ReadOk buf)
        show ?thesis
        proof (cases "buf = []")
          case True
          with body e1 y1 ReadOk have "y = Inr (w1\<lparr>reads_done := reads_done w1 + 1\<rparr>)"
            by (simp add: ReadFile_hComm_def)
          with ReadOk True show ?thesis using drained by simp
        next
          case False
          with body e1 ReadOk have "f e1 (w1\<lparr>reads_done := reads_done w1 + 1\<rparr>) = Some y1"
            by (simp add: ReadFile_hComm_def)
          from ih[OF this] e1 y1 have "P (w1\<lparr>reads_done := reads_done w1 + 1\<rparr>)" by simp
          with ReadOk False show ?thesis using continue by simp
        qed
      qed
    qed
  qed
  from this[OF run] show ?thesis by simp
qed

subsection \<open>The receive loop\<close>



lemma streaming_fidelity:
  assumes "streaming e s = Some (Inr s')"
  shows "reads_done (wld s) < reads_done (wld s') \<and>
         written (wld s') = written (wld s) @ concat (received e (reads_done (wld s)) (reads_done (wld s')))"
  using assms
proof (induction rule: streaming_induct)
  case (failed s x)
  then show ?case by simp
next
  case (last s s1)
  then have s1: "s1 = s'" by simp
  note st = iteration_Inr[OF last(1)]
  have "received e (reads_done (wld s)) (reads_done (wld s1)) = [payload (port_read e (reads_done (wld s)))]"
    using st(1) by (simp add: received_def)
  then show ?case using st(1,2) s1 by simp
next
  case (continue s s1)
  note st = iteration_Inr[OF continue(1)]
  have lt: "reads_done (wld s) < reads_done (wld s')" using continue(3) st(1) by simp
  have "received e (reads_done (wld s)) (reads_done (wld s'))
        = payload (port_read e (reads_done (wld s))) # received e (reads_done (wld s1)) (reads_done (wld s'))"
    using lt st(1) by (simp add: received_def upt_conv_Cons)
  then show ?case using lt continue(3) st(2) by simp
qed

lemma iteration_retry:
  assumes "iteration e s = Inr s1" and "timeout s = 0"
  shows "timeout s1 = 0 \<or> timeout s1 = 1"
    and "length (sent (wld s1)) \<le> length (sent (wld s)) + 1"
    and "timeout s1 = 0 \<Longrightarrow> sent (wld s1) \<noteq> sent (wld s) \<Longrightarrow>
           payload (port_read e (reads_done (wld s))) \<noteq> []"
  using assms
  by (auto simp: iteration_def kick_def receive_def api_defs Let_def payload_def
           split: sum.splits if_splits read_result.splits)

lemma streaming_retries:
  assumes "streaming e s = Some (Inr s')"
  shows "reads_done (wld s) < reads_done (wld s') \<and> (timeout s = 0 \<longrightarrow>
         length (sent (wld s')) \<le> length (sent (wld s))
           + length (filter (\<lambda>b. b \<noteq> []) (received e (reads_done (wld s)) (reads_done (wld s')))) + 1)"
  using assms
proof (induction rule: streaming_induct)
  case (failed s x)
  then show ?case by simp
next
  case (last s s1)
  then have "s1 = s'" by simp
  with iteration_retry(2)[OF last(1)] iteration_Inr(1)[OF last(1)] show ?case by auto
next
  case (continue s s1)
  note st = iteration_Inr[OF continue(1)]
  have lt: "reads_done (wld s) < reads_done (wld s')" using continue(3) st(1) by simp
  have rec: "received e (reads_done (wld s)) (reads_done (wld s'))
      = payload (port_read e (reads_done (wld s))) # received e (reads_done (wld s1)) (reads_done (wld s'))"
    using lt st(1) by (simp add: received_def upt_conv_Cons)
  have "length (sent (wld s')) \<le> length (sent (wld s))
           + length (filter (\<lambda>b. b \<noteq> []) (received e (reads_done (wld s)) (reads_done (wld s')))) + 1"
    if t: "timeout s = 0"
  proof -
    note it = iteration_retry[OF continue(1) t]
    from it(1) continue(2) have t1: "timeout s1 = 0" by (auto simp: MAX_TIMEOUTS_def)
    from continue(3) t1 have ih: "length (sent (wld s')) \<le> length (sent (wld s1))
           + length (filter (\<lambda>b. b \<noteq> []) (received e (reads_done (wld s1)) (reads_done (wld s')))) + 1"
      by simp
    show ?thesis
    proof (cases "sent (wld s1) = sent (wld s)")
      case True
      with ih rec show ?thesis by simp
    next
      case False
      from it(3)[OF t1 False] have "payload (port_read e (reads_done (wld s))) \<noteq> []" .
      with ih rec it(2) show ?thesis by simp
    qed
  qed
  with lt show ?case by simp
qed

lemma streaming_continue:
  assumes "iteration e s = Inr s'" and "timeout s' = 0"
  shows "streaming e s = streaming e s'"
  by (subst streaming.simps) (simp add: assms MAX_TIMEOUTS_def)

lemma streaming_data:
  assumes "\<forall>i<length Rs. port_read e (reads_done (wld s) + i) = ReadOk (Rs ! i) \<and> Rs ! i \<noteq> []"
    and "\<forall>k. port_write e k" and "\<forall>k. file_write e k"
    and "timeout s = 0"
    and "lastTicks s = tick_count e (ticks_read (wld s) - 1)" and "0 < ticks_read (wld s)"
  shows "\<exists>s'. streaming e s = streaming e s' \<and> timeout s' = 0
     \<and> written (wld s') = written (wld s) @ concat Rs
     \<and> reads_done (wld s') = reads_done (wld s) + length Rs
     \<and> lastTicks s' = tick_count e (ticks_read (wld s') - 1) \<and> 0 < ticks_read (wld s')
     \<and> existing (wld s') = existing (wld s) \<and> output_opened (wld s') = output_opened (wld s)"
  using assms
proof (induction Rs arbitrary: s)
  case Nil
  then show ?case by auto
next
  case (Cons R Rs)
  from Cons(2) have r: "port_read e (reads_done (wld s)) = ReadOk R" "R \<noteq> []"
    by force+
  from iteration_data[OF r Cons(3) Cons(4)] obtain s1 where
    s1: "iteration e s = Inr s1" "timeout s1 = 0" "written (wld s1) = written (wld s) @ R"
      "reads_done (wld s1) = reads_done (wld s) + 1"
      "lastTicks s1 = tick_count e (ticks_read (wld s1) - 1)" "0 < ticks_read (wld s1)"
      "existing (wld s1) = existing (wld s)" "output_opened (wld s1) = output_opened (wld s)"
    by blast
  have a: "\<forall>i<length Rs. port_read e (reads_done (wld s1) + i) = ReadOk (Rs ! i) \<and> Rs ! i \<noteq> []"
  proof (intro allI impI)
    fix i assume "i < length Rs"
    then have "Suc i < length (R # Rs)" by simp
    with Cons(2) have "port_read e (reads_done (wld s) + Suc i) = ReadOk ((R # Rs) ! Suc i)
                       \<and> (R # Rs) ! Suc i \<noteq> []" by blast
    then show "port_read e (reads_done (wld s1) + i) = ReadOk (Rs ! i) \<and> Rs ! i \<noteq> []"
      using s1(4) by simp
  qed
  from Cons(1)[OF a Cons(3) Cons(4) s1(2) s1(5) s1(6)] obtain s' where
    s': "streaming e s1 = streaming e s'" "timeout s' = 0"
      "written (wld s') = written (wld s1) @ concat Rs"
      "reads_done (wld s') = reads_done (wld s1) + length Rs"
      "lastTicks s' = tick_count e (ticks_read (wld s') - 1)" "0 < ticks_read (wld s')"
      "existing (wld s') = existing (wld s1)" "output_opened (wld s') = output_opened (wld s1)"
    by blast
  have "streaming e s = streaming e s'"
    using streaming_continue[OF s1(1) s1(2)] s'(1) by simp
  with s1 s' show ?case by auto
qed

text \<open>
  Silence: once the port delivers nothing more, the loop waits until a clock reading is
  more than 1000 ms past \<open>lastTicks\<close>, writes one \<open>+read\<close>, reads nothing again and
  leaves with \<open>timeout = 1\<close>.
\<close>

lemma streaming_silence:
  assumes "\<forall>k. reads_done (wld s) \<le> k \<longrightarrow> port_read e k = ReadOk []"
    and "1000 < tick_count e (ticks_read (wld s) + j) - lastTicks s"
    and "port_write e (length (sent (wld s)))"
    and "timeout s = 0"
  shows "\<exists>n. streaming e s = Some (Inr (s\<lparr>timeout := 1,
            lastTicks := tick_count e (ticks_read (wld s) + n + 1),
            wld := (wld s)\<lparr>ticks_read := ticks_read (wld s) + n + 2,
                           sent := sent (wld s) @ [cmd_read],
                           markers := markers (wld s) @ '':'',
                           reads_done := reads_done (wld s) + n + 1\<rparr>\<rparr>))"
  using assms
proof (induction j arbitrary: s)
  case 0
  have r: "port_read e (reads_done (wld s)) = ReadOk []" using 0(1) by simp
  have k: "1000 < tick_count e (ticks_read (wld s)) - lastTicks s" using 0(2) by simp
  have "streaming e s = Some (Inr (s\<lparr>timeout := 1,
            lastTicks := tick_count e (ticks_read (wld s) + 0 + 1),
            wld := (wld s)\<lparr>ticks_read := ticks_read (wld s) + 0 + 2,
                           sent := sent (wld s) @ [cmd_read],
                           markers := markers (wld s) @ '':'',
                           reads_done := reads_done (wld s) + 0 + 1\<rparr>\<rparr>))"
    by (subst streaming.simps)
       (simp add: iteration_silent_kick[OF r k 0(3)] MAX_TIMEOUTS_def 0(4))
  then show ?case by blast
next
  case (Suc j)
  have r: "port_read e (reads_done (wld s)) = ReadOk []" using Suc(2) by simp
  show ?case
  proof (cases "1000 < tick_count e (ticks_read (wld s)) - lastTicks s")
    case True
    have "streaming e s = Some (Inr (s\<lparr>timeout := 1,
            lastTicks := tick_count e (ticks_read (wld s) + 0 + 1),
            wld := (wld s)\<lparr>ticks_read := ticks_read (wld s) + 0 + 2,
                           sent := sent (wld s) @ [cmd_read],
                           markers := markers (wld s) @ '':'',
                           reads_done := reads_done (wld s) + 0 + 1\<rparr>\<rparr>))"
      by (subst streaming.simps)
         (simp add: iteration_silent_kick[OF r True Suc(4)] MAX_TIMEOUTS_def Suc(5))
    then show ?thesis by blast
  next
    case False
    let ?s1 = "s\<lparr>wld := (wld s)\<lparr>ticks_read := ticks_read (wld s) + 1,
                                 reads_done := reads_done (wld s) + 1\<rparr>\<rparr>"
    have it: "iteration e s = Inr ?s1" by (rule iteration_silent_wait[OF r False])
    have a1: "\<forall>k. reads_done (wld ?s1) \<le> k \<longrightarrow> port_read e k = ReadOk []" using Suc(2) by simp
    have a2: "1000 < tick_count e (ticks_read (wld ?s1) + j) - lastTicks ?s1" using Suc(3) by simp
    have a3: "port_write e (length (sent (wld ?s1)))" using Suc(4) by simp
    have a4: "timeout ?s1 = 0" using Suc(5) by simp
    from Suc(1)[OF a1 a2 a3 a4] obtain n where
      n: "streaming e ?s1 = Some (Inr (?s1\<lparr>timeout := 1,
            lastTicks := tick_count e (ticks_read (wld ?s1) + n + 1),
            wld := (wld ?s1)\<lparr>ticks_read := ticks_read (wld ?s1) + n + 2,
                           sent := sent (wld ?s1) @ [cmd_read],
                           markers := markers (wld ?s1) @ '':'',
                           reads_done := reads_done (wld ?s1) + n + 1\<rparr>\<rparr>))" by blast
    have "streaming e s = streaming e ?s1"
      by (subst streaming.simps) (simp add: it MAX_TIMEOUTS_def Suc(5))
    with n have "streaming e s = Some (Inr (s\<lparr>timeout := 1,
            lastTicks := tick_count e (ticks_read (wld s) + Suc n + 1),
            wld := (wld s)\<lparr>ticks_read := ticks_read (wld s) + Suc n + 2,
                           sent := sent (wld s) @ [cmd_read],
                           markers := markers (wld s) @ '':'',
                           reads_done := reads_done (wld s) + Suc n + 1\<rparr>\<rparr>))"
      by simp
    then show ?thesis by blast
  qed
qed

lemma running_clock:
  assumes "\<forall>t. \<exists>j. 1000 < tick_count e (t + 1 + j) - tick_count e t"
    and "lastTicks s = tick_count e (ticks_read (wld s) - 1)" and "0 < ticks_read (wld s)"
  shows "\<exists>j. 1000 < tick_count e (ticks_read (wld s) + j) - lastTicks s"
proof -
  from assms(1) obtain j where "1000 < tick_count e (ticks_read (wld s) - 1 + 1 + j) - tick_count e (ticks_read (wld s) - 1)"
    by blast
  with assms(2,3) show ?thesis by auto
qed

lemma bench_clock_runs:
  "\<forall>t. \<exists>j. 1000 < tick_count (bench script) (t + 1 + j) - tick_count (bench script) t"
proof
  fix t
  have "tick_count (bench script) (t + 1 + 1) - tick_count (bench script) t = 1200"
    by (simp add: bench_def algebra_simps)
  then have "1000 < tick_count (bench script) (t + 1 + 1) - tick_count (bench script) t"
    by simp
  then show "\<exists>j. 1000 < tick_count (bench script) (t + 1 + j) - tick_count (bench script) t"
    by blast
qed

subsection \<open>The handshake\<close>




lemma handshake_clean:
  assumes "open_port e (portname c)" "set_comm_state e (baud c)" "set_comm_timeouts e" "setup_comm e"
    and "\<forall>k. port_write e k"
    and "has_extension e fname \<or> length fname \<le> 250"
    and "open_output e (if has_extension e fname then fname else fname @ ''.bmp'')"
    and "port_read e 0 = ReadOk []" and "port_read e 1 = ReadOk reply" and "length reply < 1024"
  shows "handshake e c fname (initial_world f)
         = Some (Inr ((initial_world f)\<lparr>sent := [cmd_probe, cmd_ver, cmd_arm (address c), cmd_read],
                        reads_done := 2, comm_open := True, output_opened := True,
                        output_open := True\<rparr>))"
proof -
  let ?w1 = "(initial_world f)\<lparr>comm_open := True, sent := [cmd_probe]\<rparr>"
  have c: "connect e c (initial_world f) = Inr (True, ?w1)"
    using assms(1-5) by (simp add: connect_def api_defs initial_world_def)
  have f: "clear_input e ?w1 = Some (Inr (?w1\<lparr>reads_done := 1\<rparr>))"
    using assms(8) by (subst clear_input.simps) (simp add: api_defs initial_world_def)
  have i: "identify e True (?w1\<lparr>reads_done := 1\<rparr>)
           = Inr (?w1\<lparr>reads_done := 2, sent := [cmd_probe, cmd_ver]\<rparr>)"
    using assms(5,9,10) by (simp add: identify_def api_defs initial_world_def sizeof_strBuf_def)
  have o: "open_output_file e fname (?w1\<lparr>reads_done := 2, sent := [cmd_probe, cmd_ver]\<rparr>)
           = Inr (?w1\<lparr>reads_done := 2, sent := [cmd_probe, cmd_ver], output_opened := True, output_open := True\<rparr>)"
    using assms(6,7) by (auto simp: open_output_file_def sizeof_filename_def)
  have a: "arm e c (?w1\<lparr>reads_done := 2, sent := [cmd_probe, cmd_ver], output_opened := True, output_open := True\<rparr>)
           = Inr (?w1\<lparr>reads_done := 2, sent := [cmd_probe, cmd_ver, cmd_arm (address c), cmd_read],
                      output_opened := True, output_open := True\<rparr>)"
    using assms(5) by (simp add: arm_def api_defs)
  show ?thesis
    using c f i o a by (simp add: handshake_def initial_world_def)
qed


subsection \<open>Byte fidelity of the capture\<close>

text \<open>
  C1. Whatever the port delivers during the receive loop is what is written to the
  output file, in order and byte for byte. First conjunct: for every run of the loop
  that ends normally, with any clock and with reads of zero bytes anywhere in between,
  the bytes written through \<open>hOutput\<close> are the concatenation of the results of all
  \<open>ReadFile\<close> calls of the loop. Second conjunct: when the port delivers the non-empty
  results \<open>R\<^sub>1, ..., R\<^sub>n\<close> and is silent afterwards, no call fails and the clock keeps
  running, the loop ends normally and has written \<open>R\<^sub>1 @ ... @ R\<^sub>n\<close>; that is the whole
  file when the file was new. (An older, longer file keeps its tail: the file is opened
  with \<open>OPEN_ALWAYS\<close> and never truncated.)
\<close>

theorem byte_fidelity:
  "(\<forall>w'. capture_image e w = Some (Inr w') \<longrightarrow>
       written w' = written w @ concat (received e (reads_done w) (reads_done w')))
   \<and> ((\<forall>i<length Rs. port_read e (reads_done w + i) = ReadOk (Rs ! i) \<and> Rs ! i \<noteq> [])
        \<and> (\<forall>k. reads_done w + length Rs \<le> k \<longrightarrow> port_read e k = ReadOk [])
        \<and> (\<forall>k. port_write e k) \<and> (\<forall>k. file_write e k)
        \<and> (\<forall>t. \<exists>j. 1000 < tick_count e (t + 1 + j) - tick_count e t)
      \<longrightarrow> (\<exists>w'. capture_image e w = Some (Inr w') \<and> written w' = written w @ concat Rs
              \<and> (output_opened w \<and> existing w = None \<and> written w = []
                   \<longrightarrow> file_content w' = Some (concat Rs))))"
proof (intro conjI allI impI)
  fix w' assume "capture_image e w = Some (Inr w')"
  then obtain s' where s': "streaming e (start_capture e w) = Some (Inr s')"
    and w': "w' = snd (WriteFile_hComm e cmd_terminator (wld s'))"
    by (auto simp: capture_image_def split: option.splits sum.splits)
  from streaming_fidelity[OF s'] w'
  show "written w' = written w @ concat (received e (reads_done w) (reads_done w'))"
    by (simp add: start_capture_def api_defs)
next
  assume h: "(\<forall>i<length Rs. port_read e (reads_done w + i) = ReadOk (Rs ! i) \<and> Rs ! i \<noteq> [])
        \<and> (\<forall>k. reads_done w + length Rs \<le> k \<longrightarrow> port_read e k = ReadOk [])
        \<and> (\<forall>k. port_write e k) \<and> (\<forall>k. file_write e k)
        \<and> (\<forall>t. \<exists>j. 1000 < tick_count e (t + 1 + j) - tick_count e t)"
  let ?s = "start_capture e w"
  have s0: "timeout ?s = 0" "lastTicks ?s = tick_count e (ticks_read (wld ?s) - 1)"
    "0 < ticks_read (wld ?s)" "reads_done (wld ?s) = reads_done w" "written (wld ?s) = written w"
    "existing (wld ?s) = existing w" "output_opened (wld ?s) = output_opened w"
    by (simp_all add: start_capture_def api_defs)
  have a: "\<forall>i<length Rs. port_read e (reads_done (wld ?s) + i) = ReadOk (Rs ! i) \<and> Rs ! i \<noteq> []"
    using h s0(4) by simp
  from streaming_data[OF a _ _ s0(1) s0(2) s0(3)] h obtain s1 where
    s1: "streaming e ?s = streaming e s1" "timeout s1 = 0"
      "written (wld s1) = written (wld ?s) @ concat Rs"
      "reads_done (wld s1) = reads_done (wld ?s) + length Rs"
      "lastTicks s1 = tick_count e (ticks_read (wld s1) - 1)" "0 < ticks_read (wld s1)"
      "existing (wld s1) = existing (wld ?s)" "output_opened (wld s1) = output_opened (wld ?s)"
    by blast
  have sil: "\<forall>k. reads_done (wld s1) \<le> k \<longrightarrow> port_read e k = ReadOk []"
    using h s1(4) s0(4) by simp
  from running_clock[OF _ s1(5) s1(6)] h obtain j where
    j: "1000 < tick_count e (ticks_read (wld s1) + j) - lastTicks s1" by blast
  have pw: "port_write e (length (sent (wld s1)))" using h by simp
  from streaming_silence[OF sil j pw s1(2)] obtain s2 where
    s2: "streaming e s1 = Some (Inr s2)" "written (wld s2) = written (wld s1)"
      "existing (wld s2) = existing (wld s1)" "output_opened (wld s2) = output_opened (wld s1)"
    by force
  let ?w' = "snd (WriteFile_hComm e cmd_terminator (wld s2))"
  have c: "capture_image e w = Some (Inr ?w')"
    using s1(1) s2(1) by (simp add: capture_image_def)
  have wr: "written ?w' = written w @ concat Rs"
    using s2(2) s1(3) s0(5) by (simp add: api_defs)
  have fc: "output_opened w \<and> existing w = None \<and> written w = [] \<longrightarrow> file_content ?w' = Some (concat Rs)"
    using wr s2(3,4) s1(7,8) s0(6,7) by (simp add: file_content_def api_defs)
  from c wr fc
  show "\<exists>w'. capture_image e w = Some (Inr w') \<and> written w' = written w @ concat Rs
              \<and> (output_opened w \<and> existing w = None \<and> written w = []
                   \<longrightarrow> file_content w' = Some (concat Rs))"
    by blast
qed

theorem byte_fidelity_witness:
  "(\<exists>w'. capture_image (bench [ReadOk ''ab'', ReadOk [], ReadOk ''cde'']) (initial_world None) = Some (Inr w')
         \<and> reads_done w' = 5 \<and> written w' = ''abcde'')
   \<and> (\<exists>w'. capture_image (bench [ReadOk ''ab'', ReadOk ''cde''])
              ((initial_world None)\<lparr>output_opened := True\<rparr>) = Some (Inr w')
         \<and> written w' = ''abcde'' \<and> file_content w' = Some ''abcde'')"
proof -
  let ?e1 = "bench [ReadOk ''ab'', ReadOk [], ReadOk ''cde'']"
  let ?e2 = "bench [ReadOk ''ab'', ReadOk ''cde'']"
  let ?w = "(initial_world None)\<lparr>output_opened := True\<rparr>"
  let ?w1 = "(initial_world None)\<lparr>sent := [cmd_read, cmd_read, cmd_terminator], reads_done := 5,
               ticks_read := 10, written := ''abcde'', writes_done := 2, markers := ''::''\<rparr>"
  have run: "capture_image ?e1 (initial_world None) = Some (Inr ?w1)"
    by (simp add: session_defs bench_defs)
  have rec: "concat (received ?e1 0 5) = ''abcde''"
    by (simp add: received_def payload_def bench_defs upt_rec)
  have a: "\<forall>i<length [''ab'', ''cde'']. port_read ?e2 (reads_done ?w + i) = ReadOk ([''ab'', ''cde''] ! i)
             \<and> [''ab'', ''cde''] ! i \<noteq> []"
    by (simp add: bench_defs less_Suc_eq numeral_2_eq_2)
  have b: "\<forall>k. reads_done ?w + length [''ab'', ''cde''] \<le> k \<longrightarrow> port_read ?e2 k = ReadOk []"
    by (simp add: bench_defs)
  have c: "(\<forall>k. port_write ?e2 k) \<and> (\<forall>k. file_write ?e2 k)"
    by (simp add: bench_def)
  have d: "output_opened ?w \<and> existing ?w = None \<and> written ?w = []"
    by (simp add: initial_world_def)
  from byte_fidelity[of ?e1 "initial_world None" "[]"] run rec
  have 1: "written ?w1 = ''abcde''" by (simp add: initial_world_def)
  from byte_fidelity[of ?e2 ?w "[''ab'', ''cde'']"] a b c d bench_clock_runs[of "[ReadOk ''ab'', ReadOk ''cde'']"]
  have 2: "\<exists>w'. capture_image ?e2 ?w = Some (Inr w') \<and> written w' = ''abcde'' \<and> file_content w' = Some ''abcde''"
    by (simp add: initial_world_def)
  from run 1 2 show ?thesis by simp
qed

subsection \<open>Termination on silence\<close>

text \<open>
  C2. When the handshake has succeeded and every read of the receive loop returns zero
  bytes, the loop writes exactly \<open>MAX_TIMEOUTS\<close> (one) \<open>+read\<close> retry, provided that
  write succeeds and some later clock reading is more than 1000 ms past the reading
  taken when the loop started; it then leaves the loop, sends the terminator and \<open>main\<close>
  returns 0. Nothing is written to the output file.
\<close>

theorem silent_transport_is_done:
  assumes "arguments argv = Inr (c, fname)" and "handshake e c fname w = Some (Inr w1)"
    and "\<forall>k. reads_done w1 \<le> k \<longrightarrow> port_read e k = ReadOk []"
    and "port_write e (length (sent w1))"
    and "1000 < tick_count e (ticks_read w1 + 1 + j) - tick_count e (ticks_read w1)"
  shows "\<exists>w'. main e argv w = Some (Exit 0, w')
           \<and> sent w' = sent w1 @ replicate (nat MAX_TIMEOUTS) cmd_read @ [cmd_terminator]
           \<and> markers w' = markers w1 @ '':'' \<and> written w' = written w1"
proof -
  let ?s = "start_capture e w1"
  have a1: "\<forall>k. reads_done (wld ?s) \<le> k \<longrightarrow> port_read e k = ReadOk []"
    using assms(3) by (simp add: start_capture_def api_defs)
  have a2: "1000 < tick_count e (ticks_read (wld ?s) + j) - lastTicks ?s"
    using assms(5) by (simp add: start_capture_def api_defs)
  have a3: "port_write e (length (sent (wld ?s)))"
    using assms(4) by (simp add: start_capture_def api_defs)
  have a4: "timeout ?s = 0" by (simp add: start_capture_def api_defs)
  from streaming_silence[OF a1 a2 a3 a4] obtain s2 where
    s2: "streaming e ?s = Some (Inr s2)" "sent (wld s2) = sent (wld ?s) @ [cmd_read]"
      "markers (wld s2) = markers (wld ?s) @ '':''" "written (wld s2) = written (wld ?s)"
    by force
  let ?w' = "mainOut (snd (WriteFile_hComm e cmd_terminator (wld s2)))"
  have "main e argv w = Some (Exit 0, ?w')"
    using assms(1,2) s2(1) by (simp add: main_def session_def capture_image_def)
  moreover have "sent ?w' = sent w1 @ replicate (nat MAX_TIMEOUTS) cmd_read @ [cmd_terminator]"
    using s2(2) by (simp add: mainOut_def api_defs start_capture_def MAX_TIMEOUTS_def)
  moreover have "markers ?w' = markers w1 @ '':''"
    using s2(3) by (simp add: mainOut_def api_defs start_capture_def)
  moreover have "written ?w' = written w1"
    using s2(4) by (simp add: mainOut_def api_defs start_capture_def)
  ultimately show ?thesis by blast
qed

theorem silent_transport_is_done_witness:
  "\<exists>w'. main (bench []) [''tekcap'', ''out.bmp''] (initial_world None) = Some (Exit 0, w')
       \<and> sent w' = [cmd_probe, cmd_ver, cmd_arm 1, cmd_read, cmd_read, cmd_terminator]
       \<and> markers w' = '':'' \<and> written w' = []"
proof -
  let ?w1 = "(initial_world None)\<lparr>sent := [cmd_probe, cmd_ver, cmd_arm 1, cmd_read],
                reads_done := 2, comm_open := True, output_opened := True, output_open := True\<rparr>"
  have a: "arguments [''tekcap'', ''out.bmp''] = Inr (initial_config, ''out.bmp'')"
    by (simp add: argument_defs)
  have h: "handshake (bench []) initial_config ''out.bmp'' (initial_world None) = Some (Inr ?w1)"
    by (simp add: session_defs bench_defs initial_config_def)
  have r: "\<forall>k. reads_done ?w1 \<le> k \<longrightarrow> port_read (bench []) k = ReadOk []"
    by (simp add: bench_defs)
  have p: "port_write (bench []) (length (sent ?w1))"
    by (simp add: bench_def)
  have t: "1000 < tick_count (bench []) (ticks_read ?w1 + 1 + 1) - tick_count (bench []) (ticks_read ?w1)"
    by (simp add: bench_defs)
  show ?thesis
    using silent_transport_is_done[OF a h r p t]
    by (simp add: initial_world_def MAX_TIMEOUTS_def)
qed

subsection \<open>Validation of the configuration\<close>




subsection \<open>The version query\<close>




subsection \<open>Scenario A\<close>

text \<open>
  C5. Address 1, baud rate 230400, every call succeeds; nothing stale on the port, a
  non-empty reply to \<open>+ver\<close>, then three reads of 512, 512 and 10 bytes and silence
  ever after; a clock that keeps running; no output file before the run. Then \<open>main\<close>
  returns 0, the file holds the 1034 bytes in order, exactly one progress marker has
  been printed (\<open>bytesTilDot\<close> reaches 512, then 1024, which is not above the threshold,
  then 1034), and the loop ends with the remainder \<open>bytesTilDot = 10\<close>.
\<close>

theorem scenario_A:
  assumes "arguments argv = Inr (c, fname)" and "address c = 1" and "baud c = 230400"
    and "open_port e (portname c)" and "set_comm_state e (baud c)"
    and "set_comm_timeouts e" and "setup_comm e"
    and "\<forall>k. port_write e k" and "\<forall>k. file_write e k"
    and "has_extension e fname \<or> length fname \<le> 250"
    and "open_output e (if has_extension e fname then fname else fname @ ''.bmp'')"
    and "port_read e 0 = ReadOk []"
    and "port_read e 1 = ReadOk reply" and "reply \<noteq> []" and "length reply < 1024"
    and "port_read e 2 = ReadOk c1" and "length c1 = 512"
    and "port_read e 3 = ReadOk c2" and "length c2 = 512"
    and "port_read e 4 = ReadOk c3" and "length c3 = 10"
    and "\<forall>k. 5 \<le> k \<longrightarrow> port_read e k = ReadOk []"
    and "\<forall>t. \<exists>j. 1000 < tick_count e (t + 1 + j) - tick_count e t"
  shows "\<exists>w1 s' w'. handshake e c fname (initial_world None) = Some (Inr w1)
           \<and> streaming e (start_capture e w1) = Some (Inr s') \<and> bytesTilDot s' = 10
           \<and> main e argv (initial_world None) = Some (Exit 0, w')
           \<and> file_content w' = Some (c1 @ c2 @ c3) \<and> length (c1 @ c2 @ c3) = 1034
           \<and> progress_markers (markers w') = 1"
proof -
  let ?w1 = "(initial_world None)\<lparr>sent := [cmd_probe, cmd_ver, cmd_arm (address c), cmd_read],
                        reads_done := 2, comm_open := True, output_opened := True,
                        output_open := True\<rparr>"
  have hs: "handshake e c fname (initial_world None) = Some (Inr ?w1)"
    by (rule handshake_clean[OF assms(4) assms(5) assms(6) assms(7) assms(8) assms(10) assms(11)
          assms(12) assms(13) assms(15)])
  let ?s0 = "start_capture e ?w1"
  have s0: "timeout ?s0 = 0" "bytesTilDot ?s0 = 0" "reads_done (wld ?s0) = 2" "written (wld ?s0) = []"
    "markers (wld ?s0) = []" "existing (wld ?s0) = None" "output_opened (wld ?s0)"
    by (simp_all add: start_capture_def api_defs initial_world_def)
  have r0: "port_read e (reads_done (wld ?s0)) = ReadOk c1" using s0(3) assms(16) by simp
  have n1: "c1 \<noteq> []" "c2 \<noteq> []" "c3 \<noteq> []" using assms(17,19,21) by auto
  from iteration_data[OF r0 n1(1) assms(8) assms(9)] obtain s1 where
    s1: "iteration e ?s0 = Inr s1" "timeout s1 = 0" "bytesTilDot s1 = 512"
      "progress_markers (markers (wld s1)) = 0" "written (wld s1) = c1"
      "reads_done (wld s1) = 3" "existing (wld s1) = None" "output_opened (wld s1)"
    using s0 assms(17) by (auto simp: progress_markers_def)
  have r1: "port_read e (reads_done (wld s1)) = ReadOk c2" using s1(6) assms(18) by simp
  from iteration_data[OF r1 n1(2) assms(8) assms(9)] obtain s2 where
    s2: "iteration e s1 = Inr s2" "timeout s2 = 0" "bytesTilDot s2 = 1024"
      "progress_markers (markers (wld s2)) = 0" "written (wld s2) = c1 @ c2"
      "reads_done (wld s2) = 4" "existing (wld s2) = None" "output_opened (wld s2)"
    using s1 assms(19) by auto
  have r2: "port_read e (reads_done (wld s2)) = ReadOk c3" using s2(6) assms(20) by simp
  from iteration_data[OF r2 n1(3) assms(8) assms(9)] obtain s3 where
    s3: "iteration e s2 = Inr s3" "timeout s3 = 0" "bytesTilDot s3 = 10"
      "progress_markers (markers (wld s3)) = 1" "written (wld s3) = c1 @ c2 @ c3"
      "reads_done (wld s3) = 5" "existing (wld s3) = None" "output_opened (wld s3)"
      "lastTicks s3 = tick_count e (ticks_read (wld s3) - 1)" "0 < ticks_read (wld s3)"
    using s2 assms(21) by auto
  have chain: "streaming e ?s0 = streaming e s3"
    using streaming_continue[OF s1(1) s1(2)] streaming_continue[OF s2(1) s2(2)]
      streaming_continue[OF s3(1) s3(2)] by simp
  have sil: "\<forall>k. reads_done (wld s3) \<le> k \<longrightarrow> port_read e k = ReadOk []"
    using assms(22) s3(6) by simp
  from running_clock[OF assms(23) s3(9) s3(10)] obtain j where
    j: "1000 < tick_count e (ticks_read (wld s3) + j) - lastTicks s3" by blast
  have pw: "port_write e (length (sent (wld s3)))" using assms(8) by simp
  from streaming_silence[OF sil j pw s3(2)] obtain s4 where
    s4: "streaming e s3 = Some (Inr s4)" "bytesTilDot s4 = bytesTilDot s3"
      "written (wld s4) = written (wld s3)" "markers (wld s4) = markers (wld s3) @ '':''"
      "existing (wld s4) = existing (wld s3)" "output_opened (wld s4) = output_opened (wld s3)"
    by force
  let ?w' = "mainOut (snd (WriteFile_hComm e cmd_terminator (wld s4)))"
  have m: "main e argv (initial_world None) = Some (Exit 0, ?w')"
    using assms(1) hs chain s4(1) by (simp add: main_def session_def capture_image_def)
  have fc: "file_content ?w' = Some (c1 @ c2 @ c3)"
    using s4(3,5,6) s3(5,7,8) by (simp add: file_content_def mainOut_def api_defs)
  have pm: "progress_markers (markers ?w') = 1"
    using s4(4) s3(4) by (simp add: mainOut_def api_defs progress_markers_def)
  have len: "length (c1 @ c2 @ c3) = 1034" using assms(17,19,21) by simp
  have b: "bytesTilDot s4 = 10" using s4(2) s3(3) by simp
  from hs chain s4(1) b m fc pm len show ?thesis by auto
qed

theorem scenario_A_witness:
  "\<exists>w'. main (bench [ReadOk [], ReadOk ''v1.0'', ReadOk (replicate 512 (CHR ''a'')),
                      ReadOk (replicate 512 (CHR ''b'')), ReadOk (replicate 10 (CHR ''c''))])
            [''tekcap'', ''-a'', ''1'', ''-b'', ''230400'', ''out.bmp''] (initial_world None)
          = Some (Exit 0, w')
       \<and> file_content w' = Some (replicate 512 (CHR ''a'') @ replicate 512 (CHR ''b'')
                                  @ replicate 10 (CHR ''c''))
       \<and> progress_markers (markers w') = 1"
proof -
  let ?e = "bench [ReadOk [], ReadOk ''v1.0'', ReadOk (replicate 512 (CHR ''a'')),
                   ReadOk (replicate 512 (CHR ''b'')), ReadOk (replicate 10 (CHR ''c''))]"
  have a: "arguments [''tekcap'', ''-a'', ''1'', ''-b'', ''230400'', ''out.bmp'']
           = Inr (initial_config, ''out.bmp'')"
    by (simp add: argument_defs)
  have c: "address initial_config = 1" "baud initial_config = 230400"
    by (simp_all add: initial_config_def)
  have p: "open_port ?e (portname initial_config)" "set_comm_state ?e (baud initial_config)"
    "set_comm_timeouts ?e" "setup_comm ?e" "\<forall>k. port_write ?e k" "\<forall>k. file_write ?e k"
    by (simp_all add: bench_def)
  have f: "has_extension ?e ''out.bmp'' \<or> length ''out.bmp'' \<le> 250"
    "open_output ?e (if has_extension ?e ''out.bmp'' then ''out.bmp'' else ''out.bmp'' @ ''.bmp'')"
    by (simp_all add: bench_def)
  have r: "port_read ?e 0 = ReadOk []" "port_read ?e 1 = ReadOk ''v1.0''"
    "port_read ?e 2 = ReadOk (replicate 512 (CHR ''a''))"
    "port_read ?e 3 = ReadOk (replicate 512 (CHR ''b''))"
    "port_read ?e 4 = ReadOk (replicate 10 (CHR ''c''))"
    "\<forall>k. 5 \<le> k \<longrightarrow> port_read ?e k = ReadOk []"
    by (simp_all add: bench_defs)
  have l: "''v1.0'' \<noteq> []" "length ''v1.0'' < 1024" "length (replicate 512 (CHR ''a'')) = 512"
    "length (replicate 512 (CHR ''b'')) = 512" "length (replicate 10 (CHR ''c'')) = 10"
    by simp_all
  from scenario_A[OF a c p(1-5) p(6) f r(1) r(2) l(1) l(2) r(3) l(3) r(4) l(4) r(5) l(5) r(6)
      bench_clock_runs]
  show ?thesis by blast
qed

subsection \<open>Retries and resets\<close>

text \<open>
  C6. In every pass through the loop body at most one \<open>+read\<close> retry is written, and
  only when a clock reading more than 1000 ms past \<open>lastTicks\<close> has been observed; the
  retry sets \<open>lastTicks\<close> to a fresh clock reading, so that the same silence window
  cannot trigger a second one, and it counts once in \<open>timeout\<close>. Whenever the read of
  the pass returns more than zero bytes (and the pass does not fail), \<open>timeout\<close> is 0
  and \<open>lastTicks\<close> is the latest clock reading afterwards. A pass that fails has
  written at most one retry as well. Over a whole run of the loop that ends normally,
  the retries number at most one more than the reads that delivered bytes: between two
  retries the port has spoken.
\<close>

theorem retry_and_reset:
  "(\<forall>s'. iteration e s = Inr s' \<longrightarrow>
       (sent (wld s') = sent (wld s) \<or> sent (wld s') = sent (wld s) @ [cmd_read])
     \<and> (sent (wld s') \<noteq> sent (wld s) \<longrightarrow>
          1000 < tick_count e (ticks_read (wld s)) - lastTicks s
          \<and> lastTicks s' = tick_count e (ticks_read (wld s') - 1)
          \<and> (timeout s' = timeout s + 1 \<or> timeout s' = 0))
     \<and> (sent (wld s') = sent (wld s) \<longrightarrow> timeout s' = timeout s \<or> timeout s' = 0)
     \<and> (\<forall>buf. port_read e (reads_done (wld s)) = ReadOk buf \<and> buf \<noteq> [] \<longrightarrow>
          timeout s' = 0 \<and> lastTicks s' = tick_count e (ticks_read (wld s') - 1)))
   \<and> (\<forall>x w'. iteration e s = Inl (x, w') \<longrightarrow>
       (sent w' = sent (wld s) \<or> sent w' = sent (wld s) @ [cmd_read]))
   \<and> (\<forall>s'. timeout s = 0 \<and> streaming e s = Some (Inr s') \<longrightarrow>
       length (sent (wld s')) \<le> length (sent (wld s))
         + length (filter (\<lambda>b. b \<noteq> []) (received e (reads_done (wld s)) (reads_done (wld s')))) + 1)"
proof (intro conjI)
  show "\<forall>s'. iteration e s = Inr s' \<longrightarrow>
       (sent (wld s') = sent (wld s) \<or> sent (wld s') = sent (wld s) @ [cmd_read])
     \<and> (sent (wld s') \<noteq> sent (wld s) \<longrightarrow>
          1000 < tick_count e (ticks_read (wld s)) - lastTicks s
          \<and> lastTicks s' = tick_count e (ticks_read (wld s') - 1)
          \<and> (timeout s' = timeout s + 1 \<or> timeout s' = 0))
     \<and> (sent (wld s') = sent (wld s) \<longrightarrow> timeout s' = timeout s \<or> timeout s' = 0)
     \<and> (\<forall>buf. port_read e (reads_done (wld s)) = ReadOk buf \<and> buf \<noteq> [] \<longrightarrow>
          timeout s' = 0 \<and> lastTicks s' = tick_count e (ticks_read (wld s') - 1))"
    by (auto simp: iteration_def kick_def receive_def api_defs Let_def
             split: sum.splits if_splits read_result.splits)
  show "\<forall>x w'. iteration e s = Inl (x, w') \<longrightarrow>
       (sent w' = sent (wld s) \<or> sent w' = sent (wld s) @ [cmd_read])"
    by (auto simp: iteration_def kick_def receive_def api_defs Let_def
             split: sum.splits if_splits read_result.splits)
  show "\<forall>s'. timeout s = 0 \<and> streaming e s = Some (Inr s') \<longrightarrow>
       length (sent (wld s')) \<le> length (sent (wld s))
         + length (filter (\<lambda>b. b \<noteq> []) (received e (reads_done (wld s)) (reads_done (wld s')))) + 1"
    using streaming_retries by blast
qed

theorem retry_and_reset_witness:
  "(\<exists>s'. iteration (bench [ReadOk ''ab''])
           \<lparr>lastTicks = 0, bytesTilDot = 0, timeout = 0, wld = (initial_world None)\<lparr>ticks_read := 2\<rparr>\<rparr>
         = Inr s'
       \<and> sent (wld s') = [cmd_read] \<and> timeout s' = 0 \<and> lastTicks s' = 2400)
   \<and> (\<exists>s'. streaming (bench [ReadOk ''ab'', ReadOk [], ReadOk ''cde''])
              (start_capture (bench [ReadOk ''ab'', ReadOk [], ReadOk ''cde'']) (initial_world None))
            = Some (Inr s')
         \<and> sent (wld s') = [cmd_read, cmd_read]
         \<and> length (sent (wld s')) \<le> 2 + 1)"
proof -
  let ?e = "bench [ReadOk ''ab'']"
  let ?s = "\<lparr>lastTicks = 0, bytesTilDot = 0, timeout = 0, wld = (initial_world None)\<lparr>ticks_read := 2\<rparr>\<rparr>"
  let ?s' = "\<lparr>lastTicks = 2400, bytesTilDot = 2, timeout = 0,
              wld = (initial_world None)\<lparr>ticks_read := 5, sent := [cmd_read], markers := '':'',
                      reads_done := 1, written := ''ab'', writes_done := 1\<rparr>\<rparr>"
  have it: "iteration ?e ?s = Inr ?s'"
    by (simp add: session_defs bench_defs)
  have rd: "port_read ?e (reads_done (wld ?s)) = ReadOk ''ab'' \<and> ''ab'' \<noteq> []"
    by (simp add: bench_defs)
  from retry_and_reset[of ?e ?s] it rd
  have "timeout ?s' = 0 \<and> lastTicks ?s' = tick_count ?e (ticks_read (wld ?s') - 1)
        \<and> (sent (wld ?s') = sent (wld ?s) \<or> sent (wld ?s') = sent (wld ?s) @ [cmd_read])"
    by blast
  with it have 1: "\<exists>s'. iteration ?e ?s = Inr s'
       \<and> sent (wld s') = [cmd_read] \<and> timeout s' = 0 \<and> lastTicks s' = 2400"
    by (simp add: bench_defs)
  let ?e2 = "bench [ReadOk ''ab'', ReadOk [], ReadOk ''cde'']"
  let ?t = "\<lparr>lastTicks = 5400, bytesTilDot = 5, timeout = 1,
             wld = (initial_world None)\<lparr>sent := [cmd_read, cmd_read], reads_done := 5,
               ticks_read := 10, written := ''abcde'', writes_done := 2, markers := ''::''\<rparr>\<rparr>"
  have run: "streaming ?e2 (start_capture ?e2 (initial_world None)) = Some (Inr ?t)"
    by (simp add: session_defs bench_defs)
  have t0: "timeout (start_capture ?e2 (initial_world None)) = 0"
    by (simp add: start_capture_def api_defs)
  have cnt: "length (filter (\<lambda>b. b \<noteq> []) (received ?e2 0 5)) = 2"
    by (simp add: received_def payload_def bench_defs upt_rec)
  from retry_and_reset[of ?e2 "start_capture ?e2 (initial_world None)"] run t0
  have "length (sent (wld ?t)) \<le> length (sent (wld (start_capture ?e2 (initial_world None))))
         + length (filter (\<lambda>b. b \<noteq> []) (received ?e2
              (reads_done (wld (start_capture ?e2 (initial_world None)))) (reads_done (wld ?t)))) + 1"
    by blast
  with cnt have "length (sent (wld ?t)) \<le> 2 + 1"
    by (simp add: start_capture_def api_defs initial_world_def)
  with run have 2: "\<exists>s'. streaming ?e2 (start_capture ?e2 (initial_world None)) = Some (Inr s')
         \<and> sent (wld s') = [cmd_read, cmd_read] \<and> length (sent (wld s')) \<le> 2 + 1"
    by (simp add: initial_world_def)
  from 1 2 show ?thesis by blast
qed

subsection \<open>Clearing the input buffer\<close>

text \<open>
  C7. When the next \<open>k\<close> reads deliver stale bytes (each at least one) and the read
  after them delivers none, the flush makes exactly these \<open>k + 1\<close> reads and stops:
  it returns normally with nothing else changed. In particular nothing has been sent
  meanwhile: \<open>+ver\<close> is written only after the first read of zero bytes, and its reply
  is read number \<open>k + 1\<close>.
\<close>

theorem flush_drains_stale_bytes:
  assumes "\<forall>j<k. \<exists>buf. port_read e (reads_done w + j) = ReadOk buf \<and> buf \<noteq> []"
    and "port_read e (reads_done w + k) = ReadOk []"
  shows "clear_input e w = Some (Inr (w\<lparr>reads_done := reads_done w + k + 1\<rparr>))"
  using assms
proof (induction k arbitrary: w)
  case 0
  then show ?case
    by (subst clear_input.simps) (simp add: ReadFile_hComm_def)
next
  case (Suc k)
  let ?w1 = "w\<lparr>reads_done := reads_done w + 1\<rparr>"
  from Suc(2) obtain buf where buf: "port_read e (reads_done w) = ReadOk buf" "buf \<noteq> []"
    by force
  have a: "\<forall>j<k. \<exists>buf. port_read e (reads_done ?w1 + j) = ReadOk buf \<and> buf \<noteq> []"
  proof (intro allI impI)
    fix j assume "j < k"
    then have "Suc j < Suc k" by simp
    with Suc(2) show "\<exists>buf. port_read e (reads_done ?w1 + j) = ReadOk buf \<and> buf \<noteq> []"
      by fastforce
  qed
  have b: "port_read e (reads_done ?w1 + k) = ReadOk []" using Suc(3) by simp
  have "clear_input e w = clear_input e ?w1"
    by (subst clear_input.simps) (simp add: ReadFile_hComm_def buf)
  with Suc(1)[OF a b] show ?case by simp
qed

theorem flush_drains_stale_bytes_witness:
  "clear_input (bench [ReadOk ''stale'', ReadOk ''bytes'', ReadOk []]) (initial_world None)
     = Some (Inr ((initial_world None)\<lparr>reads_done := 3\<rparr>))"
proof -
  let ?e = "bench [ReadOk ''stale'', ReadOk ''bytes'', ReadOk []]"
  have a: "\<forall>j<2. \<exists>buf. port_read ?e (reads_done (initial_world None) + j) = ReadOk buf \<and> buf \<noteq> []"
    by (simp add: bench_defs less_Suc_eq numeral_2_eq_2)
  have b: "port_read ?e (reads_done (initial_world None) + 2) = ReadOk []"
    by (simp add: bench_defs)
  show ?thesis
    using flush_drains_stale_bytes[OF a b] by (simp add: initial_world_def)
qed

subsection \<open>Exit codes\<close>




subsection \<open>Failure to open the port\<close>

text \<open>
  C9. When \<open>CreateFile\<close> on the port fails, \<open>main\<close> ends with status 4. The output
  file is not opened on that path: the answer of the environment to an attempt to open
  it has no influence on the run, and the file is left as it was (absent, if it was
  absent).
\<close>

theorem port_open_failure:
  assumes "arguments argv = Inr (c, fname)" and "\<not> open_port e (portname c)"
  shows "main e argv w = Some (Exit 4, mainOut w)
       \<and> (\<forall>f. main (e\<lparr>open_output := f\<rparr>) argv w = Some (Exit 4, mainOut w))
       \<and> output_opened (mainOut w) = output_opened w
       \<and> file_content (mainOut w) = file_content w"
  using assms
  by (simp add: main_def session_def handshake_def connect_def mainOut_def file_content_def)

theorem port_open_failure_witness:
  "main ((bench [])\<lparr>open_port := (\<lambda>_. False)\<rparr>) [''tekcap'', ''out.bmp''] (initial_world None)
     = Some (Exit 4, initial_world None)
   \<and> file_content (initial_world None) = None"
proof -
  have a: "arguments [''tekcap'', ''out.bmp''] = Inr (initial_config, ''out.bmp'')"
    by (simp add: argument_defs)
  have b: "\<not> open_port ((bench [])\<lparr>open_port := (\<lambda>_. False)\<rparr>) (portname initial_config)"
    by simp
  show ?thesis
    using port_open_failure[OF a b, of "initial_world None"]
    by (simp add: mainOut_def initial_world_def file_content_def)
qed

subsection \<open>The terminating zero of the version string\<close>

text \<open>
  C10. \<open>ReadFile\<close> is asked for \<open>sizeof(strBuf)\<close> bytes, so an adapter that answers
  \<open>+ver\<close> with 1024 bytes makes \<open>numBytes = 1024\<close>, and \<open>strBuf[numBytes] = 0\<close>
  writes one element past the array: the bound does not hold for that reply.
\<close>

theorem version_reply_fills_strBuf:
  "main (bench [ReadOk [], ReadOk (replicate 1024 (CHR ''x''))]) [''tekcap'', ''out.bmp'']
     (initial_world None)
   = Some (Fault StrBufOverrun,
       (initial_world None)\<lparr>sent := [cmd_probe, cmd_ver], reads_done := 2, comm_open := True\<rparr>)"
  by (simp add: main_def argument_defs session_defs bench_defs)

end
